theory Spec2Isabelle
  imports Main "HOL-Library.Sublist"
begin

section \<open>Values and errors\<close>

text \<open>
  \<^verbatim>\<open>type CheckedState = boolean | 'indeterminate'\<close> (Checkbox.tsx, line 21): a boolean
  or the string literal. \<open>Boolean True\<close> is the spec's Checked, \<open>Boolean False\<close> its
  Unchecked. The comparisons \<^verbatim>\<open>===\<close> and \<^verbatim>\<open>!==\<close> on these primitives are HOL equality.
\<close>

datatype CheckedState = Boolean bool | Indeterminate

text \<open>
  The exceptions the modelled code can throw: \<^verbatim>\<open>new Error(message)\<close>, and the
  \<open>TypeError\<close> JavaScript raises when a property of \<^verbatim>\<open>undefined\<close> or \<^verbatim>\<open>null\<close> is read.
\<close>

datatype JsError = Error string | TypeError

section \<open>The context factory (createContext)\<close>

text \<open>
  \<^verbatim>\<open>ContextValueType extends object | null\<close>, and the optional parameter
  \<^verbatim>\<open>defaultContext?: ContextValueType\<close> may also be \<^verbatim>\<open>undefined\<close>.
\<close>

datatype 'v ContextValue = Undefined | Null | Obj 'v

text \<open>
  \<^verbatim>\<open>React.useContext(Context)\<close> for \<^verbatim>\<open>Context = React.createContext(defaultContext)\<close>:
  the value of the nearest enclosing \<^verbatim>\<open>Context.Provider\<close>, or the default the context was
  created with when there is none. The factory's \<open>Provider\<close> always broadcasts the object
  \<^verbatim>\<open>providerProps\<close> (its props without \<^verbatim>\<open>children\<close>), so the nearest provider is
  \<open>Some providerProps\<close>, and \<open>None\<close> when the consumer has no enclosing Provider.
\<close>

definition React_useContext :: "'v ContextValue \<Rightarrow> 'v option \<Rightarrow> 'v ContextValue" where
  "React_useContext defaultContext enclosing =
     (case enclosing of None \<Rightarrow> defaultContext | Some providerProps \<Rightarrow> Obj providerProps)"

text \<open>
  The template literal of line 26:
  a backquote, the consumer's name, \<^verbatim>\<open>` must be used within `\<close>, the root's name, a backquote.
\<close>

definition must_be_used_within :: "string \<Rightarrow> string \<Rightarrow> string" where
  "must_be_used_within consumerName rootComponentName =
     [CHR 0x60] @ consumerName @ [CHR 0x60] @ '' must be used within '' @
     [CHR 0x60] @ rootComponentName @ [CHR 0x60]"

text \<open>
  \<^verbatim>\<open>useContext(consumerName)\<close> of the pair \<^verbatim>\<open>createContext(rootComponentName, defaultContext)\<close>
  returns (part_000, lines 20-31), called under the nearest provider \<open>enclosing\<close>.
\<close>

definition useContext ::
  "string \<Rightarrow> 'v ContextValue \<Rightarrow> 'v option \<Rightarrow> string \<Rightarrow> JsError + 'v ContextValue" where
  "useContext rootComponentName defaultContext enclosing consumerName =
     (let context = React_useContext defaultContext enclosing in
      if context = Undefined then
        (if defaultContext = Undefined
         then Inl (Error (must_be_used_within consumerName rootComponentName))
         else Inr defaultContext)
      else Inr context)"

section \<open>The checkbox\<close>

definition CHECKBOX_NAME :: string where
  "CHECKBOX_NAME = ''Checkbox''"

definition INDICATOR_NAME :: string where
  "INDICATOR_NAME = ''CheckboxIndicator''"

text \<open>\<^verbatim>\<open>type CheckboxContextValue = { state: CheckedState; disabled?: boolean }\<close>\<close>

record CheckboxContextValue =
  state :: CheckedState
  disabled :: "bool option"

text \<open>
  \<^verbatim>\<open>createContext<CheckboxContextValue>(CHECKBOX_NAME)\<close> (line 43): no default is given.
\<close>

definition useCheckboxContext ::
  "CheckboxContextValue option \<Rightarrow> string \<Rightarrow> JsError + CheckboxContextValue ContextValue" where
  "useCheckboxContext enclosing consumerName =
     useContext CHECKBOX_NAME Undefined enclosing consumerName"

subsection \<open>The transition on activation\<close>

text \<open>
  The updater the click handler passes to \<^verbatim>\<open>setChecked\<close> (line 86):
  \<^verbatim>\<open>(prevChecked) => (prevChecked === 'indeterminate' ? true : !prevChecked)\<close>.
  The previous value is \<^verbatim>\<open>CheckedState | undefined\<close> (an uncontrolled checkbox with no
  \<^verbatim>\<open>defaultChecked\<close> holds \<^verbatim>\<open>undefined\<close>), and \<^verbatim>\<open>!undefined\<close> is \<^verbatim>\<open>true\<close>.
\<close>

fun nextChecked :: "CheckedState option \<Rightarrow> CheckedState" where
  "nextChecked (Some Indeterminate) = Boolean True"
| "nextChecked (Some (Boolean b)) = Boolean (\<not> b)"
| "nextChecked None = Boolean True"


subsection \<open>The indicator\<close>

text \<open>
  \<^verbatim>\<open>forceMount?: true\<close> is either \<^verbatim>\<open>undefined\<close> (\<open>None\<close>) or \<^verbatim>\<open>true\<close> (\<open>Some ()\<close>).
  The \<^verbatim>\<open>present\<close> property handed to \<open>Presence\<close> (line 144):
  \<^verbatim>\<open>forceMount || context.state === 'indeterminate' || context.state === true\<close>.
\<close>

definition indicator_present :: "unit option \<Rightarrow> CheckboxContextValue \<Rightarrow> bool" where
  "indicator_present forceMount context =
     (forceMount = Some () \<or> state context = Indeterminate \<or> state context = Boolean True)"

text \<open>
  \<open>CheckboxIndicator\<close> (lines 140-155) under the nearest \<open>CheckboxProvider\<close>: it reads the
  context, which throws outside a checkbox, and computes \<^verbatim>\<open>present\<close>.
\<close>

definition CheckboxIndicator ::
  "unit option \<Rightarrow> CheckboxContextValue option \<Rightarrow> JsError + bool" where
  "CheckboxIndicator forceMount enclosing =
     (case useCheckboxContext enclosing INDICATOR_NAME of
        Inl e \<Rightarrow> Inl e
      | Inr (Obj context) \<Rightarrow> Inr (indicator_present forceMount context)
      | Inr _ \<Rightarrow> Inl TypeError)"

section \<open>The native bridge (BubbleInput)\<close>

text \<open>\<^verbatim>\<open>new Event('click', { bubbles: true })\<close> (line 175).\<close>

record Event =
  event_type :: string
  bubbles :: bool

text \<open>
  What a listener of a dispatched event reads: the event, and the two properties of the
  node as they are while the event is being dispatched (listeners run inside
  \<^verbatim>\<open>dispatchEvent\<close>, before it returns).
\<close>

record Observation =
  observed_event :: Event
  seen_indeterminate :: bool
  seen_checked :: bool

text \<open>
  The hidden \<^verbatim>\<open><input type="checkbox">\<close> that \<^verbatim>\<open>ref.current\<close> points to: its
  \<^verbatim>\<open>indeterminate\<close> and \<^verbatim>\<open>checked\<close> properties, and the events dispatched on it so far,
  oldest first.
\<close>

record HTMLInputElement =
  indeterminate :: bool
  checked :: bool
  dispatched :: "Observation list"

definition dispatchEvent :: "HTMLInputElement \<Rightarrow> Event \<Rightarrow> HTMLInputElement" where
  "dispatchEvent input ev =
     input\<lparr>dispatched := dispatched input @
       [\<lparr>observed_event = ev, seen_indeterminate = indeterminate input,
         seen_checked = checked input\<rparr>]\<rparr>"

text \<open>
  The platform's setter of the \<^verbatim>\<open>checked\<close> property; \<^verbatim>\<open>setChecked.call(input, v)\<close> writes
  the checkedness of the node.
\<close>

datatype Setter = NativeCheckedSetter

fun call :: "Setter \<Rightarrow> HTMLInputElement \<Rightarrow> bool \<Rightarrow> HTMLInputElement" where
  "call NativeCheckedSetter input v = input\<lparr>checked := v\<rparr>"

text \<open>
  A property descriptor; \<^verbatim>\<open>descriptor.set\<close> is \<^verbatim>\<open>undefined\<close> (\<open>None\<close>) for a property
  without a setter.
\<close>

record PropertyDescriptor =
  set_d :: "Setter option"

text \<open>
  The host: \<^verbatim>\<open>window.HTMLInputElement.prototype\<close>, with the result of
  \<^verbatim>\<open>Object.getOwnPropertyDescriptor(inputProto, 'checked')\<close>, which is \<^verbatim>\<open>undefined\<close>
  (\<open>None\<close>) when the prototype has no own property of that name.
\<close>

record HTMLInputElement_prototype =
  own_checked :: "PropertyDescriptor option"

definition getOwnPropertyDescriptor ::
  "HTMLInputElement_prototype \<Rightarrow> PropertyDescriptor option" where
  "getOwnPropertyDescriptor inputProto = own_checked inputProto"

text \<open>
  The body of the effect (lines 172-182), run with the \<^verbatim>\<open>prevChecked\<close> and \<^verbatim>\<open>checked\<close> of
  the render that scheduled it, on the node \<^verbatim>\<open>ref.current\<close>. The cast
  \<^verbatim>\<open>as PropertyDescriptor\<close> is erased at run time, so reading \<^verbatim>\<open>descriptor.set\<close> of an
  \<^verbatim>\<open>undefined\<close> descriptor throws a \<open>TypeError\<close>, before the test of line 178.
  \<^verbatim>\<open>isIndeterminate ? false : checked\<close> is a boolean: \<^verbatim>\<open>checked\<close> is not the string there.
\<close>

definition BubbleInput_effect ::
  "HTMLInputElement_prototype \<Rightarrow> CheckedState \<Rightarrow> CheckedState \<Rightarrow> HTMLInputElement
     \<Rightarrow> JsError + HTMLInputElement" where
  "BubbleInput_effect inputProto prevChecked checked_prop input =
     (let isIndeterminate = (checked_prop = Indeterminate);
          ev = \<lparr>event_type = ''click'', bubbles = True\<rparr>
      in case getOwnPropertyDescriptor inputProto of
           None \<Rightarrow> Inl TypeError
         | Some descriptor \<Rightarrow>
             (case set_d descriptor of
                None \<Rightarrow> Inr input
              | Some setChecked \<Rightarrow>
                  if prevChecked \<noteq> checked_prop then
                    (let input1 = input\<lparr>indeterminate := isIndeterminate\<rparr>;
                         input2 = call setChecked input1
                                    (if isIndeterminate then False
                                     else (case checked_prop of
                                             Boolean b \<Rightarrow> b | Indeterminate \<Rightarrow> False));
                         input3 = dispatchEvent input2 ev
                     in Inr input3)
                  else Inr input))"

text \<open>
  Modelled from the spec: \<^verbatim>\<open>usePrevious\<close> (package react-use-previous) is not among the
  sources. The spec describes it as a one-slot memory of the previous render's value; on
  the first render, when nothing has been remembered yet, the value itself is returned
  (the spec's bridge dispatches no event across renders that all carry the same state,
  the first included). The function returns the previous value and the slot for the
  next render.
\<close>

definition usePrevious :: "'a \<Rightarrow> 'a option \<Rightarrow> 'a \<times> 'a option" where
  "usePrevious v slot = ((case slot of None \<Rightarrow> v | Some previous \<Rightarrow> previous), Some v)"

text \<open>
  What one mounted \<open>BubbleInput\<close> keeps between renders: the slot of \<^verbatim>\<open>usePrevious\<close>, the
  dependency array \<^verbatim>\<open>[prevChecked, checked]\<close> of the effect as last committed (\<open>None\<close>
  before the first render), and the node.
\<close>

record BubbleInput_instance =
  previous_slot :: "CheckedState option"
  effect_deps :: "(CheckedState \<times> CheckedState) option"
  ref_current :: HTMLInputElement

definition mount :: "HTMLInputElement \<Rightarrow> BubbleInput_instance" where
  "mount input = \<lparr>previous_slot = None, effect_deps = None, ref_current = input\<rparr>"

text \<open>
  One render of \<open>BubbleInput\<close> with the property \<^verbatim>\<open>checked\<close> (lines 165-186), and the commit
  that follows it: React runs the effect after the first render, and after a later one
  when an element of the dependency array differs from the committed one. An exception
  of the effect is the result of the render.
\<close>

definition BubbleInput ::
  "HTMLInputElement_prototype \<Rightarrow> CheckedState \<Rightarrow> BubbleInput_instance
     \<Rightarrow> JsError + BubbleInput_instance" where
  "BubbleInput inputProto checked_prop inst =
     (let (prevChecked, slot) = usePrevious checked_prop (previous_slot inst);
          new_deps = (prevChecked, checked_prop);
          inst1 = inst\<lparr>previous_slot := slot, effect_deps := Some new_deps\<rparr>
      in if effect_deps inst = Some new_deps then Inr inst1
         else (case BubbleInput_effect inputProto prevChecked checked_prop (ref_current inst) of
                 Inl e \<Rightarrow> Inl e
               | Inr input \<Rightarrow> Inr (inst1\<lparr>ref_current := input\<rparr>)))"

text \<open>A sequence of renders, oldest first; it ends at the first exception.\<close>

fun renders ::
  "HTMLInputElement_prototype \<Rightarrow> CheckedState list \<Rightarrow> BubbleInput_instance
     \<Rightarrow> JsError + BubbleInput_instance" where
  "renders inputProto [] inst = Inr inst"
| "renders inputProto (c # cs) inst =
     (case BubbleInput inputProto c inst of
        Inl e \<Rightarrow> Inl e
      | Inr inst1 \<Rightarrow> renders inputProto cs inst1)"

text \<open>
  Between renders the committed dependency array, when there is one, ends with the value
  the slot remembers.
\<close>

definition committed :: "BubbleInput_instance \<Rightarrow> bool" where
  "committed inst =
     (case effect_deps inst of
        None \<Rightarrow> previous_slot inst = None
      | Some (p, c) \<Rightarrow> previous_slot inst = Some c)"

text \<open>A browser: the prototype has the accessor property, with its setter.\<close>

definition browser :: HTMLInputElement_prototype where
  "browser = \<lparr>own_checked = Some \<lparr>set_d = Some NativeCheckedSetter\<rparr>\<rparr>"

text \<open>
  The number of places in a sequence where a value differs from the one before it.
\<close>

fun transitions :: "'a list \<Rightarrow> nat" where
  "transitions (x # y # xs) = (if x = y then 0 else 1) + transitions (y # xs)"
| "transitions [x] = 0"
| "transitions [] = 0"

text \<open>A node on which nothing has happened yet.\<close>

definition fresh_input :: HTMLInputElement where
  "fresh_input = \<lparr>indeterminate = False, checked = False, dispatched = []\<rparr>"

section \<open>The controllable state and the click handlers\<close>

text \<open>
  Modelled from the spec: \<^verbatim>\<open>useControllableState\<close> (package
  react-use-controllable-state) is not among the sources. The spec's contract is
  \<^verbatim>\<open>controllable(initialState, externalValue?, onChange?) -> (currentValue, setValue)\<close>:
  the mode is controlled when an external value is supplied; then the value read is the
  external value and \<^verbatim>\<open>setValue\<close> only invokes \<^verbatim>\<open>onChange\<close>. Otherwise the value read is
  internal state seeded from the initial state, and \<^verbatim>\<open>setValue\<close> mutates it and then
  invokes \<^verbatim>\<open>onChange\<close> if supplied. \<^verbatim>\<open>setValue\<close> takes a literal value or a function of
  the previous value. The calls of \<^verbatim>\<open>onChange\<close> are kept as the list of their arguments.
\<close>

record 'a Controllable =
  externalValue :: "'a option"
  internalValue :: "'a option"
  onChange_supplied :: bool
  notified :: "'a list"

text \<open>Modelled from the spec: the argument of \<^verbatim>\<open>setValue\<close>, a literal next value or a function of
  the previous value.\<close>

datatype 'a SetStateAction = Literal 'a | Updater "'a option \<Rightarrow> 'a"

text \<open>Modelled from the spec: \<^verbatim>\<open>useControllableState\<close> at mount, with the external value, the
  initial state, and whether \<^verbatim>\<open>onChange\<close> is supplied.\<close>

definition useControllableState :: "'a option \<Rightarrow> 'a option \<Rightarrow> bool \<Rightarrow> 'a Controllable" where
  "useControllableState prop defaultProp onChange =
     \<lparr>externalValue = prop, internalValue = defaultProp,
      onChange_supplied = onChange, notified = []\<rparr>"

text \<open>Modelled from the spec: the value read, the first component of what
  \<^verbatim>\<open>useControllableState\<close> returns.\<close>

definition currentValue :: "'a Controllable \<Rightarrow> 'a option" where
  "currentValue ctl =
     (case externalValue ctl of Some v \<Rightarrow> Some v | None \<Rightarrow> internalValue ctl)"

text \<open>Modelled from the spec: the notification of \<^verbatim>\<open>useControllableState\<close>, made when a
  callback was supplied.\<close>

definition invoke_onChange :: "'a \<Rightarrow> 'a Controllable \<Rightarrow> 'a Controllable" where
  "invoke_onChange next ctl =
     (if onChange_supplied ctl then ctl\<lparr>notified := notified ctl @ [next]\<rparr> else ctl)"

text \<open>Modelled from the spec: the setter, the second component of what
  \<^verbatim>\<open>useControllableState\<close> returns.\<close>

definition setValue :: "'a SetStateAction \<Rightarrow> 'a Controllable \<Rightarrow> 'a Controllable" where
  "setValue action ctl =
     (let next = (case action of Literal v \<Rightarrow> v | Updater f \<Rightarrow> f (currentValue ctl))
      in case externalValue ctl of
           Some owned \<Rightarrow> invoke_onChange next ctl
         | None \<Rightarrow> invoke_onChange next (ctl\<lparr>internalValue := Some next\<rparr>))"

text \<open>
  What one mounted \<open>Checkbox\<close> keeps: the controllable state of lines 64-68 and the ref
  of line 63. The arguments are the properties \<^verbatim>\<open>checked\<close>, \<^verbatim>\<open>defaultChecked\<close> and whether
  \<^verbatim>\<open>onCheckedChange\<close> is given.
\<close>

record Checkbox_instance =
  controllable :: "CheckedState Controllable"
  hasConsumerStoppedPropagationRef :: bool

definition Checkbox :: "CheckedState option \<Rightarrow> CheckedState option \<Rightarrow> bool \<Rightarrow> Checkbox_instance" where
  "Checkbox checkedProp defaultChecked onCheckedChange =
     \<lparr>controllable = useControllableState checkedProp defaultChecked onCheckedChange,
      hasConsumerStoppedPropagationRef = False\<rparr>"

text \<open>\<^verbatim>\<open>const [checked = false, setChecked] = ...\<close>: an \<^verbatim>\<open>undefined\<close> value reads as \<^verbatim>\<open>false\<close>.\<close>

definition Checkbox_checked :: "Checkbox_instance \<Rightarrow> CheckedState" where
  "Checkbox_checked inst =
     (case currentValue (controllable inst) of None \<Rightarrow> Boolean False | Some v \<Rightarrow> v)"

text \<open>
  A React synthetic event, as far as the handlers use it: \<^verbatim>\<open>isPropagationStopped()\<close>
  tells whether \<^verbatim>\<open>stopPropagation()\<close> has been called on it.
\<close>

record SyntheticEvent =
  propagationStopped :: bool

definition isPropagationStopped :: "SyntheticEvent \<Rightarrow> bool" where
  "isPropagationStopped event = propagationStopped event"

definition stopPropagation :: "SyntheticEvent \<Rightarrow> SyntheticEvent" where
  "stopPropagation event = event\<lparr>propagationStopped := True\<rparr>"

text \<open>
  The checkbox's own click handler (lines 85-90), the second argument of
  \<^verbatim>\<open>composeEventHandlers\<close>; \<open>event\<close> is the click as this handler receives it, after the
  consumer's \<^verbatim>\<open>props.onClick\<close> has seen it.
\<close>

definition Checkbox_onClick ::
  "Checkbox_instance \<Rightarrow> SyntheticEvent \<Rightarrow> Checkbox_instance \<times> SyntheticEvent" where
  "Checkbox_onClick inst event =
     (let inst1 = inst\<lparr>controllable := setValue (Updater nextChecked) (controllable inst)\<rparr>;
          inst2 = inst1\<lparr>hasConsumerStoppedPropagationRef := isPropagationStopped event\<rparr>;
          event1 = stopPropagation event
      in (inst2, event1))"

text \<open>The \<^verbatim>\<open>onClickCapture\<close> listener of the hidden input (lines 107-109).\<close>

definition BubbleInput_onClickCapture ::
  "Checkbox_instance \<Rightarrow> SyntheticEvent \<Rightarrow> SyntheticEvent" where
  "BubbleInput_onClickCapture inst event =
     (if hasConsumerStoppedPropagationRef inst then stopPropagation event else event)"


section \<open>Properties of the context factory\<close>

lemma sublist_consumer:
  "sublist consumerName (must_be_used_within consumerName rootComponentName)"
  unfolding must_be_used_within_def by (rule sublist_appendI)

lemma sublist_root:
  "sublist rootComponentName (must_be_used_within consumerName rootComponentName)"
proof -
  have "must_be_used_within consumerName rootComponentName =
      ([CHR 0x60] @ consumerName @ [CHR 0x60] @ '' must be used within '' @ [CHR 0x60])
      @ rootComponentName @ [CHR 0x60]"
    by (simp add: must_be_used_within_def)
  then show ?thesis
    using sublist_appendI by metis
qed

text \<open>
  C6. With no enclosing Provider, the accessor of a factory built without a default raises
  an error whose message contains the consumer's name and the root component's name; the
  accessor of a factory built with a default (\<^verbatim>\<open>null\<close> or an object) returns that default.
  Under an enclosing Provider the accessor returns the broadcast value.
\<close>

theorem useContext_provider_policy:
  "(\<exists>message.
      useContext rootComponentName (Undefined :: 'v ContextValue) None consumerName
        = Inl (Error message)
      \<and> sublist consumerName message \<and> sublist rootComponentName message)
   \<and> useContext rootComponentName (Null :: 'v ContextValue) None consumerName = Inr Null
   \<and> useContext rootComponentName (Obj d) None consumerName = Inr (Obj d)
   \<and> useContext rootComponentName defaultContext (Some providerProps) consumerName
       = Inr (Obj providerProps)"
  by (simp add: useContext_def React_useContext_def sublist_consumer sublist_root)

text \<open>
  C10. The policy depends only on whether the default is \<^verbatim>\<open>undefined\<close>: a factory built
  with \<^verbatim>\<open>null\<close> returns \<^verbatim>\<open>null\<close> with no enclosing Provider, and the accessor raises exactly
  when there is no enclosing Provider and the default is \<^verbatim>\<open>undefined\<close>.
\<close>

theorem useContext_null_default_optional:
  "useContext rootComponentName (Null :: 'v ContextValue) None consumerName = Inr Null
   \<and> (isl (useContext rootComponentName (defaultContext :: 'v ContextValue) enclosing consumerName)
        \<longleftrightarrow> (defaultContext = Undefined \<and> enclosing = None))"
  by (cases enclosing) (simp_all add: useContext_def React_useContext_def)

section \<open>Properties of the toggle\<close>












section \<open>Properties of the indicator\<close>

text \<open>
  C7. The indicator is present if and only if \<^verbatim>\<open>forceMount\<close> is set, or the broadcast state
  is Checked, or it is Indeterminate; with \<^verbatim>\<open>forceMount\<close> unset and the state Unchecked it
  is not present, also as the component computes it under a provider.
\<close>

theorem indicator_present_iff:
  "(indicator_present forceMount context
      \<longleftrightarrow> (forceMount = Some () \<or> state context = Boolean True \<or> state context = Indeterminate))
   \<and> \<not> indicator_present None \<lparr>state = Boolean False, disabled = d\<rparr>
   \<and> CheckboxIndicator None (Some \<lparr>state = Boolean False, disabled = d\<rparr>) = Inr False
   \<and> CheckboxIndicator forceMount (Some context)
       = Inr (forceMount = Some () \<or> state context = Boolean True \<or> state context = Indeterminate)"
  by (auto simp add: indicator_present_def CheckboxIndicator_def useCheckboxContext_def
      useContext_def React_useContext_def)

section \<open>Properties of the native bridge\<close>

lemma effect_transition:
  assumes "getOwnPropertyDescriptor inputProto = Some descriptor"
    and "set_d descriptor = Some setChecked"
    and "prevChecked \<noteq> checked_prop"
  shows "BubbleInput_effect inputProto prevChecked checked_prop input =
      Inr (dispatchEvent
            (input\<lparr>indeterminate := (checked_prop = Indeterminate),
                   checked := (case checked_prop of Boolean b \<Rightarrow> b | Indeterminate \<Rightarrow> False)\<rparr>)
            \<lparr>event_type = ''click'', bubbles = True\<rparr>)"
  using assms
  by (cases setChecked; cases checked_prop) (simp_all add: BubbleInput_effect_def)

lemma effect_same:
  assumes "getOwnPropertyDescriptor inputProto = Some descriptor"
  shows "BubbleInput_effect inputProto c c input = Inr input"
  using assms by (simp add: BubbleInput_effect_def Let_def split: option.splits)

lemma effect_no_setter:
  assumes "getOwnPropertyDescriptor inputProto = Some descriptor" "set_d descriptor = None"
  shows "BubbleInput_effect inputProto p c input = Inr input"
  using assms by (simp add: BubbleInput_effect_def)

lemma effect_no_descriptor:
  assumes "getOwnPropertyDescriptor inputProto = None"
  shows "BubbleInput_effect inputProto p c input = Inl TypeError"
  using assms by (simp add: BubbleInput_effect_def)

lemma render_first:
  assumes "getOwnPropertyDescriptor inputProto = Some descriptor"
    and "committed inst" and "previous_slot inst = None"
  shows "BubbleInput inputProto c inst =
      Inr (inst\<lparr>previous_slot := Some c, effect_deps := Some (c, c)\<rparr>)"
proof -
  from assms(2,3) have "effect_deps inst = None"
    by (cases "effect_deps inst") (auto simp add: committed_def)
  then show ?thesis
    using assms(3) effect_same [OF assms(1)]
    by (simp add: BubbleInput_def usePrevious_def Let_def)
qed

lemma render_unchanged:
  assumes "getOwnPropertyDescriptor inputProto = Some descriptor"
    and "previous_slot inst = Some c"
  shows "BubbleInput inputProto c inst =
      Inr (inst\<lparr>previous_slot := Some c, effect_deps := Some (c, c)\<rparr>)"
  using assms(2) effect_same [OF assms(1)]
  by (simp add: BubbleInput_def usePrevious_def Let_def)

lemma render_changed:
  assumes "getOwnPropertyDescriptor inputProto = Some descriptor"
    and "set_d descriptor = Some setChecked"
    and "committed inst" and "previous_slot inst = Some p" and "p \<noteq> c"
  shows "BubbleInput inputProto c inst =
      Inr (inst\<lparr>previous_slot := Some c, effect_deps := Some (p, c),
            ref_current := dispatchEvent
              ((ref_current inst)\<lparr>indeterminate := (c = Indeterminate),
                 checked := (case c of Boolean b \<Rightarrow> b | Indeterminate \<Rightarrow> False)\<rparr>)
              \<lparr>event_type = ''click'', bubbles = True\<rparr>\<rparr>)"
proof -
  from assms(3,4,5) have "effect_deps inst \<noteq> Some (p, c)"
    by (auto simp add: committed_def)
  then show ?thesis
    using assms(4) effect_transition [OF assms(1,2,5)]
    by (simp add: BubbleInput_def usePrevious_def Let_def)
qed

lemma renders_append:
  "renders inputProto (cs @ ds) inst =
     (case renders inputProto cs inst of
        Inl e \<Rightarrow> Inl e
      | Inr inst1 \<Rightarrow> renders inputProto ds inst1)"
  by (induction cs arbitrary: inst) (simp_all split: sum.splits)

lemma renders_browser:
  assumes "getOwnPropertyDescriptor inputProto = Some descriptor"
    and "set_d descriptor = Some setChecked"
    and "committed inst"
  shows "\<exists>inst1. renders inputProto cs inst = Inr inst1 \<and> committed inst1
      \<and> previous_slot inst1 = (if cs = [] then previous_slot inst else Some (last cs))
      \<and> length (dispatched (ref_current inst1)) =
          length (dispatched (ref_current inst))
          + transitions ((case previous_slot inst of None \<Rightarrow> [] | Some p \<Rightarrow> [p]) @ cs)"
  using assms(3)
proof (induction cs arbitrary: inst)
  case Nil
  then show ?case by (simp split: option.splits)
next
  case (Cons c cs)
  obtain mid where mid: "BubbleInput inputProto c inst = Inr mid" "committed mid"
    "previous_slot mid = Some c"
    "length (dispatched (ref_current mid)) =
       length (dispatched (ref_current inst))
       + (case previous_slot inst of None \<Rightarrow> 0 | Some p \<Rightarrow> if p = c then 0 else 1)"
  proof (cases "previous_slot inst")
    case None
    with render_first [OF assms(1) Cons.prems, of c] that show ?thesis
      by (simp add: committed_def)
  next
    case (Some p)
    show ?thesis
    proof (cases "p = c")
      case True
      with Some render_unchanged [OF assms(1), of inst c] that show ?thesis
        by (simp add: committed_def)
    next
      case False
      with Some render_changed [OF assms(1,2) Cons.prems, of p c] that show ?thesis
        by (simp add: committed_def dispatchEvent_def)
    qed
  qed
  from Cons.IH [OF mid(2)] obtain inst1 where fin:
    "renders inputProto cs mid = Inr inst1" "committed inst1"
    "previous_slot inst1 = (if cs = [] then previous_slot mid else Some (last cs))"
    "length (dispatched (ref_current inst1)) =
       length (dispatched (ref_current mid)) + transitions (c # cs)"
    using mid(3) by auto
  have count: "(case previous_slot inst of None \<Rightarrow> 0 | Some p \<Rightarrow> if p = c then 0 else 1)
      + transitions (c # cs)
      = transitions ((case previous_slot inst of None \<Rightarrow> [] | Some p \<Rightarrow> [p]) @ c # cs)"
    by (simp split: option.splits)
  have "renders inputProto (c # cs) inst = Inr inst1"
    using mid(1) fin(1) by simp
  moreover have "previous_slot inst1 = Some (last (c # cs))"
    using fin(3) mid(3) by simp
  moreover have "length (dispatched (ref_current inst1)) =
      length (dispatched (ref_current inst))
      + transitions ((case previous_slot inst of None \<Rightarrow> [] | Some p \<Rightarrow> [p]) @ c # cs)"
    using fin(4) mid(4) count by linarith
  ultimately show ?case
    using fin(2) by simp
qed

lemma transitions_snoc:
  "transitions (cs @ [c]) = transitions cs + (if cs \<noteq> [] \<and> last cs \<noteq> c then 1 else 0)"
  by (induction cs rule: transitions.induct) simp_all

lemma transitions_remdups_adj: "transitions cs = length (remdups_adj cs) - 1"
  by (induction cs rule: transitions.induct) (simp_all add: Suc_diff_le)


text \<open>
  C1. In a host whose \<^verbatim>\<open>checked\<close> property has a setter: after any sequence of renders
  of a mounted bridge, the next render dispatches exactly one event when its
  CheckedState differs from that of the render before it, and otherwise (the same state,
  or the first render) leaves the node as it was, with no event and no mutation. The
  events dispatched over the whole sequence are as many as the places where the state
  differs from the previous render's, however many renders repeat a state: one less
  than the length of the sequence with adjacent repetitions removed.
\<close>

theorem bubble_input_one_event_per_transition:
  assumes "getOwnPropertyDescriptor inputProto = Some descriptor"
    and "set_d descriptor = Some setChecked"
  shows "\<exists>before after.
      renders inputProto cs (mount input) = Inr before
      \<and> BubbleInput inputProto c before = Inr after
      \<and> renders inputProto (cs @ [c]) (mount input) = Inr after
      \<and> (if cs \<noteq> [] \<and> last cs \<noteq> c
         then length (dispatched (ref_current after))
                = Suc (length (dispatched (ref_current before)))
         else ref_current after = ref_current before)
      \<and> length (dispatched (ref_current after))
          = length (dispatched input) + transitions (cs @ [c])
      \<and> transitions (cs @ [c]) = length (remdups_adj (cs @ [c])) - 1"
proof -
  have start: "committed (mount input)"
    by (simp add: committed_def mount_def)
  from renders_browser [OF assms start, of cs] obtain before where before:
    "renders inputProto cs (mount input) = Inr before" "committed before"
    "previous_slot before = (if cs = [] then None else Some (last cs))"
    "length (dispatched (ref_current before)) = length (dispatched input) + transitions cs"
    by (auto simp add: mount_def)
  from renders_browser [OF assms before(2), of "[c]"] obtain after where after:
    "BubbleInput inputProto c before = Inr after"
    by (auto split: sum.splits)
  have whole: "renders inputProto (cs @ [c]) (mount input) = Inr after"
    using before(1) after by (simp add: renders_append)
  have step: "if cs \<noteq> [] \<and> last cs \<noteq> c
      then length (dispatched (ref_current after))
             = Suc (length (dispatched (ref_current before)))
      else ref_current after = ref_current before"
  proof (cases "cs = []")
    case True
    with before(3) have "previous_slot before = None" by simp
    from render_first [OF assms(1) before(2) this, of c] after True
    show ?thesis by auto
  next
    case False
    with before(3) have slot: "previous_slot before = Some (last cs)" by simp
    show ?thesis
    proof (cases "last cs = c")
      case True
      with slot have "previous_slot before = Some c" by simp
      from render_unchanged [OF assms(1) this] after True
      show ?thesis by auto
    next
      case differs: False
      from render_changed [OF assms before(2) slot differs] after False differs
      show ?thesis by (auto simp add: dispatchEvent_def)
    qed
  qed
  have total: "length (dispatched (ref_current after))
      = length (dispatched input) + transitions (cs @ [c])"
    using step before(4) by (auto simp add: transitions_snoc split: if_splits)
  have collapsed: "transitions (cs @ [c]) = length (remdups_adj (cs @ [c])) - 1"
    by (rule transitions_remdups_adj)
  from before(1) after whole step total collapsed show ?thesis
    by blast
qed

theorem bubble_input_one_event_per_transition_witness:
  "getOwnPropertyDescriptor browser = Some \<lparr>set_d = Some NativeCheckedSetter\<rparr>
   \<and> set_d \<lparr>set_d = Some NativeCheckedSetter\<rparr> = Some NativeCheckedSetter
   \<and> (\<exists>before after.
        renders browser [Boolean False, Boolean False, Boolean True, Boolean True]
          (mount fresh_input) = Inr before
        \<and> BubbleInput browser Indeterminate before = Inr after
        \<and> length (dispatched (ref_current after))
            = Suc (length (dispatched (ref_current before)))
        \<and> length (dispatched (ref_current after)) = 2)"
proof -
  have h1: "getOwnPropertyDescriptor browser = Some \<lparr>set_d = Some NativeCheckedSetter\<rparr>"
    by (simp add: getOwnPropertyDescriptor_def browser_def)
  have h2: "set_d \<lparr>set_d = Some NativeCheckedSetter\<rparr> = Some NativeCheckedSetter"
    by simp
  from bubble_input_one_event_per_transition [OF h1 h2,
      of "[Boolean False, Boolean False, Boolean True, Boolean True]" fresh_input Indeterminate]
  obtain before after where run:
    "renders browser [Boolean False, Boolean False, Boolean True, Boolean True]
       (mount fresh_input) = Inr before"
    "BubbleInput browser Indeterminate before = Inr after"
    and step: "if [Boolean False, Boolean False, Boolean True, Boolean True] \<noteq> []
          \<and> last [Boolean False, Boolean False, Boolean True, Boolean True] \<noteq> Indeterminate
       then length (dispatched (ref_current after))
              = Suc (length (dispatched (ref_current before)))
       else ref_current after = ref_current before"
    and total: "length (dispatched (ref_current after))
       = length (dispatched fresh_input)
         + transitions ([Boolean False, Boolean False, Boolean True, Boolean True]
                          @ [Indeterminate])"
    by blast
  from step have one: "length (dispatched (ref_current after))
      = Suc (length (dispatched (ref_current before)))"
    by simp
  from total have two: "length (dispatched (ref_current after)) = 2"
    by (simp add: fresh_input_def)
  from run one two
  have "\<exists>before after.
        renders browser [Boolean False, Boolean False, Boolean True, Boolean True]
          (mount fresh_input) = Inr before
        \<and> BubbleInput browser Indeterminate before = Inr after
        \<and> length (dispatched (ref_current after))
            = Suc (length (dispatched (ref_current before)))
        \<and> length (dispatched (ref_current after)) = 2"
    by blast
  with h1 h2 show ?thesis by blast
qed

text \<open>
  C3. In a host whose \<^verbatim>\<open>checked\<close> property has a setter: after any sequence of renders
  of a mounted bridge, a render whose CheckedState differs from that of the render before
  it leaves the node with its indeterminate flag true exactly when the new state is
  Indeterminate, and with its checked boolean false when the new state is Indeterminate
  and the boolean of the new state otherwise.
\<close>

theorem render_sets_native_properties:
  assumes "getOwnPropertyDescriptor inputProto = Some descriptor"
    and "set_d descriptor = Some setChecked"
    and "cs \<noteq> []" and "last cs \<noteq> c"
  shows "\<exists>before after.
      renders inputProto cs (mount input) = Inr before
      \<and> BubbleInput inputProto c before = Inr after
      \<and> renders inputProto (cs @ [c]) (mount input) = Inr after
      \<and> indeterminate (ref_current after) = (c = Indeterminate)
      \<and> checked (ref_current after) = (case c of Indeterminate \<Rightarrow> False | Boolean b \<Rightarrow> b)"
proof -
  have start: "committed (mount input)"
    by (simp add: committed_def mount_def)
  from renders_browser [OF assms(1,2) start, of cs] assms(3) obtain before where before:
    "renders inputProto cs (mount input) = Inr before" "committed before"
    "previous_slot before = Some (last cs)"
    by auto
  define after where "after = before\<lparr>previous_slot := Some c, effect_deps := Some (last cs, c),
      ref_current := dispatchEvent
        ((ref_current before)\<lparr>indeterminate := (c = Indeterminate),
           checked := (case c of Boolean b \<Rightarrow> b | Indeterminate \<Rightarrow> False)\<rparr>)
        \<lparr>event_type = ''click'', bubbles = True\<rparr>\<rparr>"
  have step: "BubbleInput inputProto c before = Inr after"
    unfolding after_def by (rule render_changed [OF assms(1,2) before(2,3) assms(4)])
  have whole: "renders inputProto (cs @ [c]) (mount input) = Inr after"
    using before(1) step by (simp add: renders_append)
  have flag: "indeterminate (ref_current after) = (c = Indeterminate)"
    by (simp add: after_def dispatchEvent_def)
  have bool: "checked (ref_current after)
      = (case c of Indeterminate \<Rightarrow> False | Boolean b \<Rightarrow> b)"
    by (cases c) (simp_all add: after_def dispatchEvent_def)
  from before(1) step whole flag bool show ?thesis
    by blast
qed

theorem render_sets_native_properties_witness:
  "getOwnPropertyDescriptor browser = Some \<lparr>set_d = Some NativeCheckedSetter\<rparr>
   \<and> set_d \<lparr>set_d = Some NativeCheckedSetter\<rparr> = Some NativeCheckedSetter
   \<and> [Boolean False, Boolean True] \<noteq> []
   \<and> last [Boolean False, Boolean True] \<noteq> Indeterminate
   \<and> (\<exists>before after.
        renders browser [Boolean False, Boolean True] (mount fresh_input) = Inr before
        \<and> BubbleInput browser Indeterminate before = Inr after
        \<and> indeterminate (ref_current after) = True
        \<and> checked (ref_current after) = False)"
proof -
  have h1: "getOwnPropertyDescriptor browser = Some \<lparr>set_d = Some NativeCheckedSetter\<rparr>"
    by (simp add: getOwnPropertyDescriptor_def browser_def)
  have h2: "set_d \<lparr>set_d = Some NativeCheckedSetter\<rparr> = Some NativeCheckedSetter"
    by simp
  have h3: "[Boolean False, Boolean True] \<noteq> []"
    by simp
  have h4: "last [Boolean False, Boolean True] \<noteq> Indeterminate"
    by simp
  from render_sets_native_properties [OF h1 h2 h3 h4, of fresh_input]
  obtain before after where
    "renders browser [Boolean False, Boolean True] (mount fresh_input) = Inr before"
    "BubbleInput browser Indeterminate before = Inr after"
    "indeterminate (ref_current after) = (Indeterminate = Indeterminate)"
    "checked (ref_current after)
       = (case Indeterminate of Indeterminate \<Rightarrow> False | Boolean b \<Rightarrow> b)"
    by blast
  then have "\<exists>before after.
        renders browser [Boolean False, Boolean True] (mount fresh_input) = Inr before
        \<and> BubbleInput browser Indeterminate before = Inr after
        \<and> indeterminate (ref_current after) = True
        \<and> checked (ref_current after) = False"
    by auto
  with h1 h2 h3 h4 show ?thesis by blast
qed

text \<open>
  C4. Whenever the effect dispatches an event, it is one event, dispatched after both
  properties of the node were written: what its listeners read is the indeterminate flag
  and the checked boolean of the new state, which are also the values the node keeps.
\<close>

theorem dispatch_after_mutation:
  assumes "BubbleInput_effect inputProto prevChecked checked_prop input = Inr input1"
    and "dispatched input1 \<noteq> dispatched input"
  shows "\<exists>seen.
      dispatched input1 = dispatched input @ [seen]
      \<and> prevChecked \<noteq> checked_prop
      \<and> seen_indeterminate seen = (checked_prop = Indeterminate)
      \<and> seen_checked seen = (case checked_prop of Indeterminate \<Rightarrow> False | Boolean b \<Rightarrow> b)
      \<and> seen_indeterminate seen = indeterminate input1
      \<and> seen_checked seen = checked input1"
proof (cases "getOwnPropertyDescriptor inputProto")
  case None
  with assms(1) show ?thesis
    by (simp add: effect_no_descriptor)
next
  case (Some descriptor)
  show ?thesis
  proof (cases "set_d descriptor")
    case None
    with Some assms show ?thesis
      by (simp add: effect_no_setter)
  next
    case (Some setChecked)
    note setter = this
    show ?thesis
    proof (cases "prevChecked = checked_prop")
      case True
      with \<open>getOwnPropertyDescriptor inputProto = Some descriptor\<close> assms show ?thesis
        by (simp add: effect_same)
    next
      case False
      from effect_transition
        [OF \<open>getOwnPropertyDescriptor inputProto = Some descriptor\<close> setter False, of input]
        assms(1) False
      show ?thesis
        by (cases checked_prop) (auto simp add: dispatchEvent_def)
    qed
  qed
qed

theorem dispatch_after_mutation_witness:
  "BubbleInput_effect browser (Boolean False) (Boolean True) fresh_input
     = Inr \<lparr>indeterminate = False, checked = True, dispatched =
         [\<lparr>observed_event = \<lparr>event_type = ''click'', bubbles = True\<rparr>,
           seen_indeterminate = False, seen_checked = True\<rparr>]\<rparr>
   \<and> dispatched \<lparr>indeterminate = False, checked = True, dispatched =
         [\<lparr>observed_event = \<lparr>event_type = ''click'', bubbles = True\<rparr>,
           seen_indeterminate = False, seen_checked = True\<rparr>]\<rparr> \<noteq> dispatched fresh_input
   \<and> (\<exists>seen.
        [\<lparr>observed_event = \<lparr>event_type = ''click'', bubbles = True\<rparr>,
           seen_indeterminate = False, seen_checked = True\<rparr>] = dispatched fresh_input @ [seen]
        \<and> seen_indeterminate seen = False \<and> seen_checked seen = True)"
proof -
  have h1: "BubbleInput_effect browser (Boolean False) (Boolean True) fresh_input
     = Inr \<lparr>indeterminate = False, checked = True, dispatched =
         [\<lparr>observed_event = \<lparr>event_type = ''click'', bubbles = True\<rparr>,
           seen_indeterminate = False, seen_checked = True\<rparr>]\<rparr>"
    by (simp add: BubbleInput_effect_def getOwnPropertyDescriptor_def browser_def
        fresh_input_def dispatchEvent_def)
  have h2: "dispatched \<lparr>indeterminate = False, checked = True, dispatched =
         [\<lparr>observed_event = \<lparr>event_type = ''click'', bubbles = True\<rparr>,
           seen_indeterminate = False, seen_checked = True\<rparr>]\<rparr> \<noteq> dispatched fresh_input"
    by (simp add: fresh_input_def)
  from dispatch_after_mutation [OF h1 h2]
  have "\<exists>seen.
        [\<lparr>observed_event = \<lparr>event_type = ''click'', bubbles = True\<rparr>,
           seen_indeterminate = False, seen_checked = True\<rparr>] = dispatched fresh_input @ [seen]
        \<and> seen_indeterminate seen = False \<and> seen_checked seen = True"
    by simp
  with h1 h2 show ?thesis by blast
qed

text \<open>
  C9. In a host whose prototype has no own \<^verbatim>\<open>checked\<close> property, so that no setter can
  be located, the effect throws a \<open>TypeError\<close>: on the transition from Unchecked to
  Checked, and whenever it runs. Where the property is there and only its setter is
  missing, the effect returns with the node untouched.
\<close>

theorem effect_throws_without_descriptor:
  "BubbleInput_effect \<lparr>own_checked = None\<rparr> (Boolean False) (Boolean True) fresh_input
     = Inl TypeError
   \<and> BubbleInput_effect \<lparr>own_checked = None\<rparr> prevChecked checked_prop input = Inl TypeError
   \<and> BubbleInput_effect \<lparr>own_checked = Some \<lparr>set_d = None\<rparr>\<rparr>
       (Boolean False) (Boolean True) fresh_input = Inr fresh_input"
  by (simp add: BubbleInput_effect_def getOwnPropertyDescriptor_def)

section \<open>Properties of the click handlers and of the controlled mode\<close>

text \<open>
  C5. The checkbox's click handler stores in the ref whether propagation of the click was
  already stopped when the handler received it, and returns the click with propagation
  stopped in every case. The hidden input's capture listener, run after that click,
  stops the propagation of its own event when the stored flag is set and leaves the event
  as it is otherwise; so an event that arrives unstopped leaves the listener stopped
  exactly when the consumer had stopped the click.
\<close>

theorem click_propagation_relay:
  "hasConsumerStoppedPropagationRef (fst (Checkbox_onClick inst event))
     = isPropagationStopped event
   \<and> isPropagationStopped (snd (Checkbox_onClick inst event))
   \<and> BubbleInput_onClickCapture (fst (Checkbox_onClick inst event)) bubbled
       = (if isPropagationStopped event then stopPropagation bubbled else bubbled)
   \<and> isPropagationStopped
        (BubbleInput_onClickCapture (fst (Checkbox_onClick inst event))
           \<lparr>propagationStopped = False\<rparr>)
       = isPropagationStopped event"
  by (simp add: Checkbox_onClick_def BubbleInput_onClickCapture_def
      isPropagationStopped_def stopPropagation_def Let_def)

theorem click_propagation_relay_witness:
  "hasConsumerStoppedPropagationRef
     (fst (Checkbox_onClick (Checkbox None None False) \<lparr>propagationStopped = True\<rparr>))
   \<and> isPropagationStopped
       (snd (Checkbox_onClick (Checkbox None None False) \<lparr>propagationStopped = False\<rparr>))
   \<and> \<not> isPropagationStopped
        (BubbleInput_onClickCapture
           (fst (Checkbox_onClick (Checkbox None None False) \<lparr>propagationStopped = False\<rparr>))
           \<lparr>propagationStopped = False\<rparr>)"
  using click_propagation_relay [of "Checkbox None None False" "\<lparr>propagationStopped = True\<rparr>"]
    click_propagation_relay [of "Checkbox None None False" "\<lparr>propagationStopped = False\<rparr>"]
  by (simp add: isPropagationStopped_def)

text \<open>
  C8. In controlled mode the value read is the external value, before and after any call
  of the setter, which leaves the external value as it is. A checkbox constructed with
  \<^verbatim>\<open>checked\<close> Indeterminate and no \<^verbatim>\<open>onCheckedChange\<close>: on a click the updater computes
  Checked from the value read, and the value read after the click is still Indeterminate.
\<close>

theorem controlled_value_is_external:
  assumes "externalValue ctl = Some v"
  shows "currentValue ctl = Some v
    \<and> currentValue (setValue action ctl) = Some v
    \<and> externalValue (setValue action ctl) = Some v
    \<and> internalValue (setValue action ctl) = internalValue ctl
    \<and> nextChecked (currentValue (controllable (Checkbox (Some Indeterminate) defaultChecked False)))
        = Boolean True
    \<and> Checkbox_checked
        (fst (Checkbox_onClick (Checkbox (Some Indeterminate) defaultChecked False) event))
        = Indeterminate"
  using assms
  by (simp add: currentValue_def setValue_def invoke_onChange_def Checkbox_def
      Checkbox_onClick_def Checkbox_checked_def useControllableState_def Let_def)

theorem controlled_value_is_external_witness:
  "externalValue (useControllableState (Some Indeterminate) (Some (Boolean False)) True)
     = Some Indeterminate
   \<and> currentValue
       (setValue (Updater nextChecked)
          (useControllableState (Some Indeterminate) (Some (Boolean False)) True))
       = Some Indeterminate
   \<and> currentValue
       (setValue (Literal (Boolean True))
          (useControllableState (Some Indeterminate) (Some (Boolean False)) True))
       = Some Indeterminate"
proof -
  have h: "externalValue (useControllableState (Some Indeterminate) (Some (Boolean False)) True)
     = Some Indeterminate"
    by (simp add: useControllableState_def)
  from controlled_value_is_external [OF h, of "Updater nextChecked"]
    controlled_value_is_external [OF h, of "Literal (Boolean True)"] h
  show ?thesis by blast
qed

end
